theory Spec2Isabelle
  imports Main
begin

section \<open>The FromEmail block of streamtools (st/library/fromEmail.go)\<close>

subsection \<open>Values, errors and the block's fields\<close>

text \<open>
  A rule arrives as a Go \<^verbatim>\<open>map[string]interface{}\<close>: a partial map from keys to
  dynamically typed values.
\<close>

datatype jvalue = JString string | JNumber int | JBool bool | JNull

type_synonym rule = "string \<rightharpoonup> jvalue"

text \<open>
  Go errors are values carrying a message. \<open>ValidationError\<close> carries the name of the
  offending field, \<open>IMAPError\<close> the stage of the IMAP library call that failed,
  \<open>EncodingError\<close> comes from \<^verbatim>\<open>json.Marshal\<close>.
\<close>

datatype error = ValidationError string | IMAPError string | EncodingError string

text \<open>
  A \<^verbatim>\<open>*imap.Client\<close> is a handle: the index of the connection in the list of all
  connections dialled so far. The nil pointer is \<open>None\<close>.
\<close>

type_synonym handle = nat

record FromEmail =
  host :: string
  username :: string
  password :: string
  mailbox :: string
  client :: "handle option"

record emailMessage =
  Received :: int
  Body :: string

definition NewFromEmail :: FromEmail where
  "NewFromEmail =
     \<lparr>host = ''imap.gmail.com'', username = [], password = [], mailbox = ''INBOX'',
      client = None\<rparr>"

subsection \<open>Rule parsing\<close>

text \<open>
  Modelled from the spec: \<^verbatim>\<open>util.ParseRequiredString\<close> (package st/util) is not among
  the sources. The spec says of the rule schema: required fields, all string-valued; a
  missing or non-string value for a required field is a validation failure identified by
  field name. Go returns a pair; beside an error the string is the zero value.
\<close>

definition ParseRequiredString :: "rule \<Rightarrow> string \<Rightarrow> string \<times> error option" where
  "ParseRequiredString msgI key =
     (case msgI key of
        Some (JString s) \<Rightarrow> (s, None)
      | _ \<Rightarrow> ([], Some (ValidationError key)))"

text \<open>
  \<^verbatim>\<open>e.host, err = util.ParseRequiredString(msgI, "Host")\<close> assigns the field before
  the error is looked at; the fourth call assigns \<^verbatim>\<open>e.password\<close> again.
\<close>

definition parseAuthRules :: "rule \<Rightarrow> FromEmail \<Rightarrow> FromEmail \<times> error option" where
  "parseAuthRules msgI e0 =
     (let (v, err) = ParseRequiredString msgI ''Host''; e1 = e0\<lparr>host := v\<rparr> in
      if err \<noteq> None then (e1, err) else
      let (v, err) = ParseRequiredString msgI ''Username''; e2 = e1\<lparr>username := v\<rparr> in
      if err \<noteq> None then (e2, err) else
      let (v, err) = ParseRequiredString msgI ''Password''; e3 = e2\<lparr>password := v\<rparr> in
      if err \<noteq> None then (e3, err) else
      let (v, err) = ParseRequiredString msgI ''Mailbox''; e4 = e3\<lparr>password := v\<rparr> in
      if err \<noteq> None then (e4, err) else (e4, None))"

definition is_string :: "jvalue option \<Rightarrow> bool" where
  "is_string v = (case v of Some (JString s) \<Rightarrow> True | _ \<Rightarrow> False)"

definition string_of :: "jvalue option \<Rightarrow> string" where
  "string_of v = (case v of Some (JString s) \<Rightarrow> s | _ \<Rightarrow> [])"

definition required_fields :: "string list" where
  "required_fields = [''Host'', ''Username'', ''Password'', ''Mailbox'']"

definition valid_rule :: "rule \<Rightarrow> bool" where
  "valid_rule r = list_all (\<lambda>k. is_string (r k)) required_fields"

subsection \<open>The IMAP server seen through the client library\<close>

text \<open>
  The go-imap library and the server behind it are outside the repository. Their answers
  are the fields of a \<open>server\<close>: whether dial, login and select succeed, what a
  \<^verbatim>\<open>FETCH\<close> and a \<^verbatim>\<open>UID FETCH\<close> answer on a connection (the request is passed as the
  code builds it), what \<^verbatim>\<open>Idle\<close>, \<^verbatim>\<open>IdleTerm\<close> and \<^verbatim>\<open>Recv(0)\<close> answer after
  a given history of calls, how many unilateral responses sit in \<^verbatim>\<open>client.Data\<close>, and
  what \<^verbatim>\<open>json.Marshal\<close> makes of an \<open>emailMessage\<close>.
\<close>

datatype field = Str string | Num nat | DateTime int

record msginfo =
  UID :: nat
  Attrs :: "string \<rightharpoonup> field"

datatype op = OpIdle | OpIdleTerm | OpRecv | OpFetch | OpUIDFetch

record server =
  dial_ok :: "string \<Rightarrow> bool"
  login_ok :: "string \<Rightarrow> string \<Rightarrow> string \<Rightarrow> bool"
  select_ok :: "string \<Rightarrow> string \<Rightarrow> bool"
  fetch :: "handle \<Rightarrow> string \<Rightarrow> string list \<Rightarrow> error + msginfo list"
  uid_fetch :: "handle \<Rightarrow> nat list \<Rightarrow> string list \<Rightarrow> error + msginfo list"
  reply :: "op list \<Rightarrow> op \<Rightarrow> error option"
  data_len :: "op list \<Rightarrow> nat"
  marshal :: "emailMessage \<Rightarrow> error + string"

text \<open>
  \<^verbatim>\<open>imap.AsString\<close> and \<^verbatim>\<open>imap.AsDateTime\<close> decode a field and give the zero value
  for an absent or ill-typed one; the zero \<^verbatim>\<open>time.Time\<close> is \<open>0\<close>.
\<close>

definition AsString :: "field option \<Rightarrow> string" where
  "AsString f = (case f of Some (Str s) \<Rightarrow> s | _ \<Rightarrow> [])"

definition AsDateTime :: "field option \<Rightarrow> int" where
  "AsDateTime f = (case f of Some (DateTime t) \<Rightarrow> t | _ \<Rightarrow> 0)"

subsection \<open>Opening a session\<close>

datatype cstate = Connected | Authenticated | Selected | Closed

text \<open>
  \<open>newIMAPClient\<close> returns \<^verbatim>\<open>conn, err\<close> on every path. The library's
  \<^verbatim>\<open>DialTLS\<close> gives the nil handle when it fails; after a successful dial the handle
  of the new connection is returned whether or not login and select succeed. The list
  holds the state of every connection.
\<close>

definition newIMAPClient ::
  "server \<Rightarrow> string \<Rightarrow> string \<Rightarrow> string \<Rightarrow> string \<Rightarrow> cstate list
     \<Rightarrow> (handle option \<times> error option) \<times> cstate list" where
  "newIMAPClient srv h u p m cs =
     (if \<not> dial_ok srv h then ((None, Some (IMAPError ''dial'')), cs)
      else
        let conn = length cs; cs1 = cs @ [Connected] in
        if \<not> login_ok srv h u p then ((Some conn, Some (IMAPError ''login'')), cs1)
        else
          let cs2 = cs1[conn := Authenticated] in
          if \<not> select_ok srv h m then ((Some conn, Some (IMAPError ''select'')), cs2)
          else ((Some conn, None), cs2[conn := Selected]))"

text \<open>\<^verbatim>\<open>Close(true)\<close> on a live handle; closing a closed connection changes nothing.\<close>

definition Close :: "handle \<Rightarrow> cstate list \<Rightarrow> cstate list" where
  "Close c cs = cs[c := Closed]"

definition open_sessions :: "cstate list \<Rightarrow> nat" where
  "open_sessions cs = length (filter (\<lambda>s. s = Selected) cs)"

subsection \<open>The unread fetcher\<close>

text \<open>
  \<open>findUnreadEmails\<close> fetches \<^verbatim>\<open>RFC822.HEADER\<close> and \<^verbatim>\<open>UID\<close> of the sequence set
  \<^verbatim>\<open>1:*\<close>; on an error it returns an empty command.
\<close>

definition findUnreadEmails :: "server \<Rightarrow> handle \<Rightarrow> msginfo list \<times> error option" where
  "findUnreadEmails srv conn =
     (case fetch srv conn ''1:*'' [''RFC822.HEADER'', ''UID''] of
        Inl err \<Rightarrow> ([], Some err)
      | Inr cmd \<Rightarrow> (cmd, None))"

text \<open>A \<^verbatim>\<open>SeqSet\<close> holds each number once.\<close>

definition AddNum :: "nat \<Rightarrow> nat list \<Rightarrow> nat list" where
  "AddNum n seq = (if n \<in> set seq then seq else seq @ [n])"

definition seq_of :: "msginfo list \<Rightarrow> nat list" where
  "seq_of cmd = foldl (\<lambda>seq rsp. AddNum (UID rsp) seq) [] cmd"

definition to_email :: "msginfo \<Rightarrow> emailMessage" where
  "to_email msgData =
     \<lparr>Received = AsDateTime (Attrs msgData ''INTERNALDATE''),
      Body = AsString (Attrs msgData ''BODY[]'')\<rparr>"

definition getEmails ::
  "server \<Rightarrow> handle \<Rightarrow> msginfo list \<Rightarrow> emailMessage list \<times> error option" where
  "getEmails srv conn cmd =
     (case uid_fetch srv conn (seq_of cmd)
             [''INTERNALDATE'', ''BODY[]'', ''UID'', ''RFC822.HEADER''] of
        Inl err \<Rightarrow> ([], Some err)
      | Inr fCmd \<Rightarrow> (map to_email fCmd, None))"

text \<open>
  The emission loop: an email that does not serialise is reported and skipped. The
  result is the pair of what went to \<^verbatim>\<open>e.out\<close> and what went to \<^verbatim>\<open>e.Error\<close>.
\<close>

fun emit :: "server \<Rightarrow> emailMessage list \<Rightarrow> string list \<times> error list" where
  "emit srv [] = ([], [])"
| "emit srv (email # rest) =
     (case marshal srv email of
        Inl err \<Rightarrow> (fst (emit srv rest), err # snd (emit srv rest))
      | Inr emailStr \<Rightarrow> (emailStr # fst (emit srv rest), snd (emit srv rest)))"

text \<open>\<open>fetchUnread\<close>: the returned error, the events sent, the errors reported.\<close>

definition fetchUnread ::
  "server \<Rightarrow> handle \<Rightarrow> error option \<times> string list \<times> error list" where
  "fetchUnread srv conn =
     (let (cmd, err) = findUnreadEmails srv conn in
      if err \<noteq> None then (err, [], []) else
      let (emails, err) = getEmails srv conn cmd in
      if err \<noteq> None then (err, [], []) else
      (None, emit srv emails))"

subsection \<open>The control loop\<close>

text \<open>
  The state of \<open>Run\<close>: the block's fields, every connection dialled so far, the stack of
  deferred \<^verbatim>\<open>Close\<close> calls (a \<^verbatim>\<open>defer\<close> evaluates its receiver when it is
  executed and runs when \<open>Run\<close> returns or panics), what was broadcast, what was
  reported through \<^verbatim>\<open>e.Error\<close>, the answers to queries, and the client each
  \<^verbatim>\<open>go e.idle()\<close> was started on.
\<close>

datatype run_status = Running | Returned | Panicked

record world =
  block :: FromEmail
  conns :: "cstate list"
  deferred :: "handle list"
  out :: "string list"
  errors :: "error list"
  replies :: "(string \<times> string) list list"
  watchers :: "handle list"
  status :: run_status

datatype stimulus = InRule rule | Quit | QueryRule

definition init_world :: world where
  "init_world =
     \<lparr>block = NewFromEmail, conns = [], deferred = [], out = [], errors = [],
      replies = [], watchers = [], status = Running\<rparr>"

definition run_deferred :: "handle list \<Rightarrow> cstate list \<Rightarrow> cstate list" where
  "run_deferred ds cs = foldl (\<lambda>cs c. Close c cs) cs ds"

text \<open>
  The \<^verbatim>\<open>inrule\<close> case. \<^verbatim>\<open>e.client, err = newIMAPClient(...)\<close> stores the returned
  handle before the error is looked at. A nil client without an error does not occur;
  the calls on it would panic.
\<close>

definition rule_branch :: "server \<Rightarrow> rule \<Rightarrow> world \<Rightarrow> world" where
  "rule_branch srv msgI w =
     (case parseAuthRules msgI (block w) of
        (e, Some err) \<Rightarrow> w\<lparr>block := e, errors := errors w @ [err]\<rparr>
      | (e, None) \<Rightarrow>
          (case newIMAPClient srv (host e) (username e) (password e) (mailbox e) (conns w) of
             ((c, Some err), cs) \<Rightarrow>
               w\<lparr>block := e\<lparr>client := c\<rparr>, conns := cs, errors := errors w @ [err]\<rparr>
           | ((None, None), cs) \<Rightarrow>
               w\<lparr>block := e\<lparr>client := None\<rparr>, conns := run_deferred (deferred w) cs,
                 deferred := [], status := Panicked\<rparr>
           | ((Some conn, None), cs) \<Rightarrow>
               (case fetchUnread srv conn of
                  (Some err, evs, reps) \<Rightarrow>
                    w\<lparr>block := e\<lparr>client := Some conn\<rparr>, conns := cs,
                      deferred := conn # deferred w, out := out w @ evs,
                      errors := errors w @ reps @ [err]\<rparr>
                | (None, evs, reps) \<Rightarrow>
                    w\<lparr>block := e\<lparr>client := Some conn\<rparr>, conns := cs,
                      deferred := conn # deferred w, out := out w @ evs,
                      errors := errors w @ reps, watchers := watchers w @ [conn]\<rparr>)))"

text \<open>
  The \<^verbatim>\<open>quit\<close> case calls \<^verbatim>\<open>e.client.Close(true)\<close> and returns. The library's
  \<^verbatim>\<open>Close\<close> reads the fields of its receiver, so the call on the nil pointer panics.
  The deferred calls run in both cases.
\<close>

definition quit_branch :: "world \<Rightarrow> world" where
  "quit_branch w =
     (case client (block w) of
        None \<Rightarrow>
          w\<lparr>conns := run_deferred (deferred w) (conns w), deferred := [],
            status := Panicked\<rparr>
      | Some c \<Rightarrow>
          w\<lparr>conns := run_deferred (deferred w) (Close c (conns w)), deferred := [],
            status := Returned\<rparr>)"

definition query_branch :: "world \<Rightarrow> world" where
  "query_branch w =
     w\<lparr>replies := replies w @
        [[(''Host'', host (block w)), (''Username'', username (block w)),
          (''Password'', password (block w)), (''Mailbox'', mailbox (block w))]]\<rparr>"

fun Run_step :: "server \<Rightarrow> stimulus \<Rightarrow> world \<Rightarrow> world" where
  "Run_step srv (InRule msgI) w = rule_branch srv msgI w"
| "Run_step srv Quit w = quit_branch w"
| "Run_step srv QueryRule w = query_branch w"

text \<open>The loop over the stimuli that arrive; after a return or a panic nothing runs.\<close>

fun Run :: "server \<Rightarrow> stimulus list \<Rightarrow> world \<Rightarrow> world" where
  "Run srv [] w = w"
| "Run srv (s # ss) w = (if status w = Running then Run srv ss (Run_step srv s w) else w)"

subsection \<open>The idle watcher\<close>

text \<open>
  The goroutine \<open>idle\<close> is a machine over its program point. \<open>Blocked_on_send\<close> is the
  statement \<^verbatim>\<open>poll <- 0\<close>, \<open>Selecting\<close> the \<^verbatim>\<open>select\<close> at the head of the loop,
  \<open>Exited\<close> a return. The channel \<^verbatim>\<open>poll\<close> is made without a buffer inside \<open>idle\<close>:
  a send on it completes only when a receive on it is ready, and the only receive is the
  \<^verbatim>\<open>select\<close> of this goroutine. \<open>sleepers\<close> counts the goroutines started by
  \<^verbatim>\<open>sleep(poll)\<close>.
\<close>

datatype ipc = Blocked_on_send | Selecting | Exited

record watcher =
  pc :: ipc
  oplog :: "op list"
  emitted :: "string list"
  reported :: "error list"
  sleepers :: nat

datatype event = PollTick | ResetTick

definition call :: "server \<Rightarrow> op \<Rightarrow> watcher \<Rightarrow> error option \<times> watcher" where
  "call srv x w = (reply srv (oplog w) x, w\<lparr>oplog := oplog w @ [x]\<rparr>)"

definition fail :: "error \<Rightarrow> watcher \<Rightarrow> watcher" where
  "fail err w = w\<lparr>reported := reported w @ [err], pc := Exited\<rparr>"

definition sleep :: "watcher \<Rightarrow> watcher" where
  "sleep w = w\<lparr>sleepers := Suc (sleepers w)\<rparr>"

definition fetch_ops :: "server \<Rightarrow> handle \<Rightarrow> op list" where
  "fetch_ops srv conn =
     (case findUnreadEmails srv conn of
        (cmd, Some err) \<Rightarrow> [OpFetch]
      | (cmd, None) \<Rightarrow> [OpFetch, OpUIDFetch])"

definition idle_start :: "server \<Rightarrow> watcher" where
  "idle_start srv =
     (case reply srv [] OpIdle of
        Some err \<Rightarrow>
          \<lparr>pc = Exited, oplog = [OpIdle], emitted = [], reported = [err], sleepers = 0\<rparr>
      | None \<Rightarrow>
          \<lparr>pc = Blocked_on_send, oplog = [OpIdle], emitted = [], reported = [], sleepers = 0\<rparr>)"

definition poll_receiver_ready :: "watcher \<Rightarrow> bool" where
  "poll_receiver_ready w = (pc w = Selecting)"

definition poll_branch :: "server \<Rightarrow> handle \<Rightarrow> watcher \<Rightarrow> watcher" where
  "poll_branch srv conn w0 =
     (case call srv OpRecv w0 of
        (Some err, w1) \<Rightarrow> fail err (sleep w1)
      | (None, w1) \<Rightarrow>
          if data_len srv (oplog w1) > 0 then
            (case call srv OpIdleTerm w1 of
               (Some err, w2) \<Rightarrow> fail err (sleep w2)
             | (None, w2) \<Rightarrow>
                 (case fetchUnread srv conn of
                    (ferr, evs, reps) \<Rightarrow>
                      let w3 = w2\<lparr>oplog := oplog w2 @ fetch_ops srv conn,
                                  emitted := emitted w2 @ evs,
                                  reported := reported w2 @ reps\<rparr> in
                      (case ferr of
                         Some err \<Rightarrow> fail err (sleep w3)
                       | None \<Rightarrow>
                           (case call srv OpIdle w3 of
                              (Some err, w4) \<Rightarrow> fail err (sleep w4)
                            | (None, w4) \<Rightarrow> sleep w4))))
          else sleep w1)"

definition reset_branch :: "server \<Rightarrow> watcher \<Rightarrow> watcher" where
  "reset_branch srv w0 =
     (case call srv OpIdleTerm w0 of
        (Some err, w1) \<Rightarrow> fail err w1
      | (None, w1) \<Rightarrow>
          (case call srv OpIdle w1 of
             (Some err, w2) \<Rightarrow> fail err w2
           | (None, w2) \<Rightarrow> w2))"

text \<open>
  \<open>idle_start\<close> is the goroutine up to the statement \<^verbatim>\<open>poll <- 0\<close>: the first
  \<^verbatim>\<open>Idle\<close> call, a report and a return if it fails.
\<close>

text \<open>
  One scheduling step. At \<^verbatim>\<open>poll <- 0\<close> the goroutine moves on only if a receive on
  \<^verbatim>\<open>poll\<close> is ready. In the \<^verbatim>\<open>select\<close>, a poll tick is a sleeper's send being
  received; a reset tick is the 20-minute ticker firing.
\<close>

definition idle_step :: "server \<Rightarrow> handle \<Rightarrow> event \<Rightarrow> watcher \<Rightarrow> watcher" where
  "idle_step srv conn ev w =
     (case pc w of
        Exited \<Rightarrow> w
      | Blocked_on_send \<Rightarrow> (if poll_receiver_ready w then w\<lparr>pc := Selecting\<rparr> else w)
      | Selecting \<Rightarrow>
          (case ev of
             PollTick \<Rightarrow>
               (if sleepers w = 0 then w
                else poll_branch srv conn (w\<lparr>sleepers := sleepers w - 1\<rparr>))
           | ResetTick \<Rightarrow> reset_branch srv w))"

definition idle_run :: "server \<Rightarrow> handle \<Rightarrow> event list \<Rightarrow> watcher \<Rightarrow> watcher" where
  "idle_run srv conn evs w = foldl (\<lambda>w ev. idle_step srv conn ev w) w evs"

subsection \<open>Servers for the concrete runs\<close>

text \<open>
  A mailbox is a list of messages with their \<^verbatim>\<open>\Seen\<close> flag. \<open>imap_server\<close> accepts
  every dial, login and select, answers a \<^verbatim>\<open>FETCH 1:*\<close> with every message of the
  mailbox and a \<^verbatim>\<open>UID FETCH\<close> with the messages whose UID was asked for, never
  fails, and serialises an email to its body.
\<close>

record message =
  m_uid :: nat
  m_seen :: bool
  m_date :: int
  m_body :: string

definition header_of :: "message \<Rightarrow> msginfo" where
  "header_of m = \<lparr>UID = m_uid m, Attrs = [''UID'' \<mapsto> Num (m_uid m)]\<rparr>"

definition record_of :: "message \<Rightarrow> msginfo" where
  "record_of m =
     \<lparr>UID = m_uid m,
      Attrs = [''UID'' \<mapsto> Num (m_uid m), ''INTERNALDATE'' \<mapsto> DateTime (m_date m),
               ''BODY[]'' \<mapsto> Str (m_body m)]\<rparr>"

definition imap_server :: "message list \<Rightarrow> server" where
  "imap_server mbox =
     \<lparr>dial_ok = (\<lambda>h. True), login_ok = (\<lambda>h u p. True), select_ok = (\<lambda>h m. True),
      fetch = (\<lambda>conn seq items. Inr (map header_of mbox)),
      uid_fetch = (\<lambda>conn seq items. Inr (map record_of (filter (\<lambda>m. m_uid m \<in> set seq) mbox))),
      reply = (\<lambda>hist x. None),
      data_len = (\<lambda>hist. 0),
      marshal = (\<lambda>email. Inr (Body email))\<rparr>"

definition mk_rule :: "string \<Rightarrow> string \<Rightarrow> string \<Rightarrow> string \<Rightarrow> rule" where
  "mk_rule h u p m =
     [''Host'' \<mapsto> JString h, ''Username'' \<mapsto> JString u, ''Password'' \<mapsto> JString p,
      ''Mailbox'' \<mapsto> JString m]"

definition serving :: "message list \<Rightarrow> (emailMessage \<Rightarrow> error + string) \<Rightarrow> server" where
  "serving mbox enc = (imap_server mbox)\<lparr>marshal := enc\<rparr>"

definition msg :: "nat \<Rightarrow> bool \<Rightarrow> string \<Rightarrow> message" where
  "msg n seen body = \<lparr>m_uid = n, m_seen = seen, m_date = 10 * int n, m_body = body\<rparr>"

text \<open>An encoder that refuses the body \<^verbatim>\<open>bad\<close>.\<close>

definition picky :: "emailMessage \<Rightarrow> error + string" where
  "picky email =
     (if Body email = ''bad'' then Inl (EncodingError ''bad'') else Inr (Body email))"

definition picky_server :: server where
  "picky_server = serving [msg 1 False ''a'', msg 2 False ''bad'', msg 3 False ''c''] picky"

text \<open>
  A server that answers the \<^verbatim>\<open>UID FETCH\<close> with records of two more messages than
  were asked for, as a server may while other clients change the mailbox.
\<close>

definition chatty_server :: server where
  "chatty_server =
     (serving [msg 1 False ''a''] picky)
     \<lparr>uid_fetch := (\<lambda>conn seq items.
         Inr (map record_of [msg 1 False ''a'', msg 2 False ''b'', msg 3 False ''bad'']))\<rparr>"

definition failing_sweep :: server where
  "failing_sweep =
     (imap_server [msg 1 False ''a''])
     \<lparr>fetch := (\<lambda>conn seq items. Inl (IMAPError ''fetch''))\<rparr>"

definition failing_retrieval :: server where
  "failing_retrieval =
     (imap_server [msg 1 False ''a''])
     \<lparr>uid_fetch := (\<lambda>conn seq items. Inl (IMAPError ''uid fetch''))\<rparr>"

definition rejecting_login :: server where
  "rejecting_login = (imap_server [])\<lparr>login_ok := (\<lambda>h u p. False)\<rparr>"

definition refusing_dial :: server where
  "refusing_dial = (imap_server [])\<lparr>dial_ok := (\<lambda>h. False)\<rparr>"

definition refusing_select :: server where
  "refusing_select = (imap_server [])\<lparr>select_ok := (\<lambda>h m. False)\<rparr>"

text \<open>A rule with one of the four fields left out.\<close>

definition rule_without :: "string \<Rightarrow> rule" where
  "rule_without k = (mk_rule ''imap.example.org'' ''v'' ''q'' ''Archive'')(k := None)"

text \<open>A server that admits one host only, and a mailbox whose first message is refused
  by the encoder.\<close>

definition one_host_server :: server where
  "one_host_server = (imap_server [])\<lparr>dial_ok := (\<lambda>h. h = ''imap.example.com'')\<rparr>"

definition small_server :: server where
  "small_server = serving [msg 5 False ''bad'', msg 6 False ''x''] picky"

subsection \<open>Notions the statements use\<close>

text \<open>The events and the reports that a list of retrieved records gives rise to.\<close>

definition serialised :: "server \<Rightarrow> msginfo list \<Rightarrow> string list" where
  "serialised srv fCmd =
     concat (map (\<lambda>m. case marshal srv (to_email m) of Inl err \<Rightarrow> [] | Inr s \<Rightarrow> [s]) fCmd)"

definition rejected :: "server \<Rightarrow> msginfo list \<Rightarrow> error list" where
  "rejected srv fCmd =
     concat (map (\<lambda>m. case marshal srv (to_email m) of Inl err \<Rightarrow> [err] | Inr s \<Rightarrow> []) fCmd)"

text \<open>
  The open that a rule triggers in a state succeeds: \<open>newIMAPClient\<close>, called with the
  credentials \<open>parseAuthRules\<close> leaves in the block, returns no error.
\<close>

definition open_succeeds :: "server \<Rightarrow> rule \<Rightarrow> world \<Rightarrow> bool" where
  "open_succeeds srv r w =
     (let e = fst (parseAuthRules r (block w)) in
      snd (fst (newIMAPClient srv (host e) (username e) (password e) (mailbox e) (conns w)))
        = None)"

text \<open>The first required field, in the order they are parsed, that is missing or no string.\<close>

definition first_invalid :: "rule \<Rightarrow> string option" where
  "first_invalid r = find (\<lambda>k. \<not> is_string (r k)) required_fields"

section \<open>Properties\<close>

lemmas fetch_defs = fetchUnread_def findUnreadEmails_def getEmails_def seq_of_def AddNum_def
  to_email_def AsString_def AsDateTime_def

lemmas srv_defs = imap_server_def header_of_def record_of_def serving_def msg_def picky_def

lemmas run_defs = init_world_def NewFromEmail_def rule_branch_def quit_branch_def
  query_branch_def parseAuthRules_def ParseRequiredString_def newIMAPClient_def
  run_deferred_def Close_def mk_rule_def

subsection \<open>Rule parsing and the credential snapshot\<close>

lemma is_string_iff: "is_string v \<longleftrightarrow> (\<exists>s. v = Some (JString s))"
  by (auto simp: is_string_def split: option.splits jvalue.splits)

lemma parse_ok: "is_string (r k) \<Longrightarrow> ParseRequiredString r k = (string_of (r k), None)"
  by (auto simp: is_string_iff ParseRequiredString_def string_of_def)

lemma parse_bad:
  "\<not> is_string (r k) \<Longrightarrow> ParseRequiredString r k = ([], Some (ValidationError k))"
  by (auto simp: is_string_def ParseRequiredString_def split: option.splits jvalue.splits)

lemma parseAuthRules_valid:
  assumes "valid_rule r"
  shows "parseAuthRules r e =
           (e\<lparr>host := string_of (r ''Host''), username := string_of (r ''Username''),
              password := string_of (r ''Mailbox'')\<rparr>, None)"
  using assms by (simp add: valid_rule_def required_fields_def parseAuthRules_def parse_ok)

text \<open>
  C1: after a rule that passes validation the stored snapshot should equal the rule's
  four fields, and a query should return them. The code stores the rule's \<open>Mailbox\<close> in
  the password field and never assigns the mailbox field: for the rule with host
  \<^verbatim>\<open>imap.example.com\<close>, username \<^verbatim>\<open>u\<close>, password \<^verbatim>\<open>p\<close> and mailbox
  \<^verbatim>\<open>Archive\<close>, applied to a fresh block, the query answers password \<^verbatim>\<open>Archive\<close>
  and mailbox \<^verbatim>\<open>INBOX\<close>.
\<close>

theorem query_after_valid_rule_shows_mailbox_as_password:
  "replies (Run (imap_server [])
      [InRule (mk_rule ''imap.example.com'' ''u'' ''p'' ''Archive''), QueryRule] init_world)
   = [[(''Host'', ''imap.example.com''), (''Username'', ''u''), (''Password'', ''Archive''),
       (''Mailbox'', ''INBOX'')]]"
  by (simp add: run_defs fetch_defs srv_defs)

subsection \<open>The unread fetcher\<close>

lemma emit_fst:
  "fst (emit srv emails) =
     concat (map (\<lambda>e. case marshal srv e of Inl err \<Rightarrow> [] | Inr s \<Rightarrow> [s]) emails)"
  by (induction emails) (auto split: sum.splits)

lemma emit_snd:
  "snd (emit srv emails) =
     concat (map (\<lambda>e. case marshal srv e of Inl err \<Rightarrow> [err] | Inr s \<Rightarrow> []) emails)"
  by (induction emails) (auto split: sum.splits)

lemma emit_eq: "emit srv (map to_email fCmd) = (serialised srv fCmd, rejected srv fCmd)"
  by (simp add: prod_eq_iff emit_fst emit_snd serialised_def rejected_def comp_def)

lemma fetchUnread_ok:
  assumes "fetch srv conn ''1:*'' [''RFC822.HEADER'', ''UID''] = Inr cmd"
      and "uid_fetch srv conn (seq_of cmd)
             [''INTERNALDATE'', ''BODY[]'', ''UID'', ''RFC822.HEADER''] = Inr fCmd"
  shows "fetchUnread srv conn = (None, serialised srv fCmd, rejected srv fCmd)"
  using assms by (simp add: fetchUnread_def findUnreadEmails_def getEmails_def emit_eq)

lemma length_serialised: "length (serialised srv fCmd) \<le> length fCmd"
  unfolding serialised_def by (induction fCmd) (auto split: sum.splits)

lemma serialised_mem:
  "m \<in> set fCmd \<Longrightarrow> marshal srv (to_email m) = Inr s \<Longrightarrow> s \<in> set (serialised srv fCmd)"
  unfolding serialised_def by (induction fCmd) (auto split: sum.splits)

lemma AddNum_set: "set (AddNum n seq) = insert n (set seq)"
  by (auto simp: AddNum_def)

lemma AddNum_distinct: "distinct seq \<Longrightarrow> distinct (AddNum n seq)"
  by (auto simp: AddNum_def)

lemma foldl_AddNum:
  "distinct acc \<Longrightarrow>
   distinct (foldl (\<lambda>seq rsp. AddNum (UID rsp) seq) acc cmd) \<and>
   set (foldl (\<lambda>seq rsp. AddNum (UID rsp) seq) acc cmd) = set acc \<union> UID ` set cmd"
  by (induction cmd arbitrary: acc) (auto simp: AddNum_set AddNum_distinct)

lemma seq_of_props: "distinct (seq_of cmd) \<and> set (seq_of cmd) = UID ` set cmd"
  using foldl_AddNum [of "[]" cmd] by (simp add: seq_of_def)

lemma length_seq_of: "length (seq_of cmd) \<le> length cmd"
proof -
  have "length (seq_of cmd) = card (UID ` set cmd)"
    using seq_of_props [of cmd] distinct_card [of "seq_of cmd"] by simp
  also have "\<dots> \<le> card (set cmd)" by (simp add: card_image_le)
  also have "\<dots> \<le> length cmd" by (rule card_length)
  finally show ?thesis .
qed

lemma answered_bound:
  assumes "distinct (map UID fCmd)" and "set (map UID fCmd) \<subseteq> set (seq_of cmd)"
  shows "length fCmd \<le> length (seq_of cmd)"
proof -
  have "length fCmd = card (set (map UID fCmd))"
    using assms(1) distinct_card [of "map UID fCmd"] by simp
  also have "\<dots> \<le> card (set (seq_of cmd))"
    using assms(2) by (simp add: card_mono)
  also have "\<dots> \<le> length (seq_of cmd)" by (rule card_length)
  finally show ?thesis .
qed

lemma serialised_rejected_length:
  "length (serialised srv fCmd) + length (rejected srv fCmd) = length fCmd"
  unfolding serialised_def rejected_def by (induction fCmd) (auto split: sum.splits)

text \<open>
  C3: every event of \<open>fetchUnread\<close> should belong to a message the server reported as
  unread. The sweep asks for the sequence set \<^verbatim>\<open>1:*\<close> with no condition on the
  \<^verbatim>\<open>\Seen\<close> flag, so a message that is already read is answered and emitted: on
  a mailbox holding one read message the fetch emits that message.
\<close>

theorem fetchUnread_emits_message_already_seen:
  "m_seen (msg 7 True ''already read'') \<and>
   fetchUnread (imap_server [msg 7 True ''already read'']) 0 = (None, [''already read''], [])"
  by (simp add: fetch_defs srv_defs)

text \<open>
  C7: when the serialisation of one email fails, only that email is dropped. If the
  sweep and the batched retrieval succeed, \<open>fetchUnread\<close> returns no error, emits in
  order the serialisation of every record that serialises, and reports the others: each
  record gives exactly one of an event and a report.
\<close>

theorem encoding_failure_drops_only_that_event:
  assumes "fetch srv conn ''1:*'' [''RFC822.HEADER'', ''UID''] = Inr cmd"
      and "uid_fetch srv conn (seq_of cmd)
             [''INTERNALDATE'', ''BODY[]'', ''UID'', ''RFC822.HEADER''] = Inr fCmd"
  shows "fetchUnread srv conn = (None, serialised srv fCmd, rejected srv fCmd) \<and>
         (\<forall>m \<in> set fCmd. \<forall>s. marshal srv (to_email m) = Inr s
            \<longrightarrow> s \<in> set (serialised srv fCmd)) \<and>
         length (serialised srv fCmd) + length (rejected srv fCmd) = length fCmd"
  using fetchUnread_ok [OF assms] serialised_mem [of _ fCmd srv] serialised_rejected_length [of srv fCmd]
  by blast

theorem encoding_failure_drops_only_that_event_witness:
  "fetchUnread picky_server 0 = (None, [''a'', ''c''], [EncodingError ''bad''])"
proof -
  have h1: "fetch picky_server 0 ''1:*'' [''RFC822.HEADER'', ''UID'']
              = Inr (map header_of [msg 1 False ''a'', msg 2 False ''bad'', msg 3 False ''c''])"
    by (simp add: picky_server_def serving_def imap_server_def)
  have h2: "uid_fetch picky_server 0
              (seq_of (map header_of [msg 1 False ''a'', msg 2 False ''bad'', msg 3 False ''c'']))
              [''INTERNALDATE'', ''BODY[]'', ''UID'', ''RFC822.HEADER'']
              = Inr (map record_of [msg 1 False ''a'', msg 2 False ''bad'', msg 3 False ''c''])"
    by (simp add: picky_server_def fetch_defs srv_defs)
  show ?thesis
    using encoding_failure_drops_only_that_event [OF h1 h2]
    by (simp add: serialised_def rejected_def picky_server_def fetch_defs srv_defs)
qed

text \<open>
  C4, as stated, fails: after a successful sweep and a successful retrieval the number
  of events need be neither the number of retrieved records nor at most the number of
  identifiers of the sweep. Here the sweep returns one identifier, the retrieval three
  records, one of which does not serialise: two events, no error.
\<close>

theorem fetchUnread_count_counterexample:
  "fetch chatty_server 0 ''1:*'' [''RFC822.HEADER'', ''UID''] = Inr [header_of (msg 1 False ''a'')] \<and>
   seq_of [header_of (msg 1 False ''a'')] = [1] \<and>
   uid_fetch chatty_server 0 (seq_of [header_of (msg 1 False ''a'')])
     [''INTERNALDATE'', ''BODY[]'', ''UID'', ''RFC822.HEADER'']
     = Inr (map record_of [msg 1 False ''a'', msg 2 False ''b'', msg 3 False ''bad'']) \<and>
   fetchUnread chatty_server 0 = (None, [''a'', ''b''], [EncodingError ''bad''])"
  by (simp add: chatty_server_def fetch_defs srv_defs)

text \<open>
  C4, amended: if the sweep or the batched retrieval fails, \<open>fetchUnread\<close> returns that
  error, emits nothing and reports nothing. If neither fails it returns no error, emits
  in the order of the server's response one event for every retrieved record that
  serialises, and reports every record that does not: each record gives exactly one of
  an event and a report, hence no more events than retrieved records. When the server
  answers the retrieval with at most one record per requested identifier, there are no
  more events than identifiers collected from the sweep, which are no more than the
  sweep's responses.
\<close>

theorem fetchUnread_all_or_nothing:
  "(fetch srv conn ''1:*'' [''RFC822.HEADER'', ''UID''] = Inl err \<longrightarrow>
      fetchUnread srv conn = (Some err, [], [])) \<and>
   (fetch srv conn ''1:*'' [''RFC822.HEADER'', ''UID''] = Inr cmd \<and>
    uid_fetch srv conn (seq_of cmd)
      [''INTERNALDATE'', ''BODY[]'', ''UID'', ''RFC822.HEADER''] = Inl err \<longrightarrow>
      fetchUnread srv conn = (Some err, [], [])) \<and>
   (fetch srv conn ''1:*'' [''RFC822.HEADER'', ''UID''] = Inr cmd \<and>
    uid_fetch srv conn (seq_of cmd)
      [''INTERNALDATE'', ''BODY[]'', ''UID'', ''RFC822.HEADER''] = Inr fCmd \<longrightarrow>
      fetchUnread srv conn = (None, serialised srv fCmd, rejected srv fCmd) \<and>
      length (serialised srv fCmd) + length (rejected srv fCmd) = length fCmd \<and>
      length (serialised srv fCmd) \<le> length fCmd \<and>
      (distinct (map UID fCmd) \<and> set (map UID fCmd) \<subseteq> set (seq_of cmd) \<longrightarrow>
         length (serialised srv fCmd) \<le> length (seq_of cmd)) \<and>
      length (seq_of cmd) \<le> length cmd)"
proof (intro conjI impI)
  assume "fetch srv conn ''1:*'' [''RFC822.HEADER'', ''UID''] = Inl err"
  then show "fetchUnread srv conn = (Some err, [], [])"
    by (simp add: fetchUnread_def findUnreadEmails_def)
next
  assume "fetch srv conn ''1:*'' [''RFC822.HEADER'', ''UID''] = Inr cmd \<and>
    uid_fetch srv conn (seq_of cmd)
      [''INTERNALDATE'', ''BODY[]'', ''UID'', ''RFC822.HEADER''] = Inl err"
  then show "fetchUnread srv conn = (Some err, [], [])"
    by (simp add: fetchUnread_def findUnreadEmails_def getEmails_def)
next
  assume a: "fetch srv conn ''1:*'' [''RFC822.HEADER'', ''UID''] = Inr cmd \<and>
    uid_fetch srv conn (seq_of cmd)
      [''INTERNALDATE'', ''BODY[]'', ''UID'', ''RFC822.HEADER''] = Inr fCmd"
  then show "fetchUnread srv conn = (None, serialised srv fCmd, rejected srv fCmd)"
    by (simp add: fetchUnread_ok)
  show "length (serialised srv fCmd) + length (rejected srv fCmd) = length fCmd"
    by (rule serialised_rejected_length)
  show "length (serialised srv fCmd) \<le> length fCmd" by (rule length_serialised)
  show "length (seq_of cmd) \<le> length cmd" by (rule length_seq_of)
  assume "distinct (map UID fCmd) \<and> set (map UID fCmd) \<subseteq> set (seq_of cmd)"
  then have "length fCmd \<le> length (seq_of cmd)" by (simp add: answered_bound)
  with length_serialised [of srv fCmd] show "length (serialised srv fCmd) \<le> length (seq_of cmd)"
    by simp
qed

theorem fetchUnread_all_or_nothing_witness:
  "fetchUnread failing_sweep 0 = (Some (IMAPError ''fetch''), [], []) \<and>
   fetchUnread failing_retrieval 0 = (Some (IMAPError ''uid fetch''), [], []) \<and>
   fetchUnread small_server 0 = (None, [''x''], [EncodingError ''bad'']) \<and>
   length [''x''] \<le> length (seq_of (map header_of [msg 5 False ''bad'', msg 6 False ''x'']))"
proof -
  let ?mbox = "[msg 5 False ''bad'', msg 6 False ''x'']"
  have a: "fetch failing_sweep 0 ''1:*'' [''RFC822.HEADER'', ''UID''] = Inl (IMAPError ''fetch'')"
    by (simp add: failing_sweep_def)
  have b: "fetch failing_retrieval 0 ''1:*'' [''RFC822.HEADER'', ''UID'']
             = Inr [header_of (msg 1 False ''a'')] \<and>
           uid_fetch failing_retrieval 0 (seq_of [header_of (msg 1 False ''a'')])
             [''INTERNALDATE'', ''BODY[]'', ''UID'', ''RFC822.HEADER'']
             = Inl (IMAPError ''uid fetch'')"
    by (simp add: failing_retrieval_def imap_server_def)
  have c: "fetch small_server 0 ''1:*'' [''RFC822.HEADER'', ''UID''] = Inr (map header_of ?mbox) \<and>
           uid_fetch small_server 0 (seq_of (map header_of ?mbox))
             [''INTERNALDATE'', ''BODY[]'', ''UID'', ''RFC822.HEADER''] = Inr (map record_of ?mbox)"
    by (simp add: small_server_def fetch_defs srv_defs)
  have d: "distinct (map UID (map record_of ?mbox)) \<and>
           set (map UID (map record_of ?mbox)) \<subseteq> set (seq_of (map header_of ?mbox))"
    by (simp add: fetch_defs srv_defs)
  have s: "serialised small_server (map record_of ?mbox) = [''x''] \<and>
           rejected small_server (map record_of ?mbox) = [EncodingError ''bad'']"
    by (simp add: serialised_def rejected_def small_server_def fetch_defs srv_defs)
  show ?thesis
    using a b c d s
      fetchUnread_all_or_nothing [of failing_sweep 0 "IMAPError ''fetch''"]
      fetchUnread_all_or_nothing [of failing_retrieval 0 "IMAPError ''uid fetch''"
        "[header_of (msg 1 False ''a'')]"]
      fetchUnread_all_or_nothing [of small_server 0 _ "map header_of ?mbox" "map record_of ?mbox"]
    by simp
qed

subsection \<open>Rules that fail validation\<close>

lemma invalid_iff_first_invalid: "\<not> valid_rule r \<longleftrightarrow> (\<exists>k. first_invalid r = Some k)"
  by (auto simp: valid_rule_def first_invalid_def required_fields_def)

lemma first_invalid_cases:
  assumes "first_invalid r = Some k"
  shows "(k = ''Host'' \<and> \<not> is_string (r ''Host'')) \<or>
         (k = ''Username'' \<and> is_string (r ''Host'') \<and> \<not> is_string (r ''Username'')) \<or>
         (k = ''Password'' \<and> is_string (r ''Host'') \<and> is_string (r ''Username'') \<and>
            \<not> is_string (r ''Password'')) \<or>
         (k = ''Mailbox'' \<and> is_string (r ''Host'') \<and> is_string (r ''Username'') \<and>
            is_string (r ''Password'') \<and> \<not> is_string (r ''Mailbox''))"
  using assms by (auto simp: first_invalid_def required_fields_def split: if_splits)

lemma parseAuthRules_Host:
  "\<not> is_string (r ''Host'') \<Longrightarrow>
   parseAuthRules r e = (e\<lparr>host := []\<rparr>, Some (ValidationError ''Host''))"
  by (simp add: parseAuthRules_def parse_bad)

lemma parseAuthRules_Username:
  "is_string (r ''Host'') \<Longrightarrow> \<not> is_string (r ''Username'') \<Longrightarrow>
   parseAuthRules r e =
     (e\<lparr>host := string_of (r ''Host''), username := []\<rparr>, Some (ValidationError ''Username''))"
  by (simp add: parseAuthRules_def parse_bad parse_ok)

lemma parseAuthRules_Password:
  "is_string (r ''Host'') \<Longrightarrow> is_string (r ''Username'') \<Longrightarrow> \<not> is_string (r ''Password'') \<Longrightarrow>
   parseAuthRules r e =
     (e\<lparr>host := string_of (r ''Host''), username := string_of (r ''Username''), password := []\<rparr>,
      Some (ValidationError ''Password''))"
  by (simp add: parseAuthRules_def parse_bad parse_ok)

lemma parseAuthRules_Mailbox:
  "is_string (r ''Host'') \<Longrightarrow> is_string (r ''Username'') \<Longrightarrow> is_string (r ''Password'') \<Longrightarrow>
   \<not> is_string (r ''Mailbox'') \<Longrightarrow>
   parseAuthRules r e =
     (e\<lparr>host := string_of (r ''Host''), username := string_of (r ''Username''), password := []\<rparr>,
      Some (ValidationError ''Mailbox''))"
  by (simp add: parseAuthRules_def parse_bad parse_ok)

text \<open>
  C5, as stated, fails: a rule that fails validation does not leave the stored
  credentials as they were. For a rule without \<open>Password\<close> the error names
  \<open>Password\<close>, but host and username have already been overwritten with the rule's.
\<close>

theorem invalid_rule_snapshot_counterexample:
  "errors (Run (imap_server []) [InRule (rule_without ''Password'')] init_world)
     = [ValidationError ''Password''] \<and>
   host (block init_world) = ''imap.gmail.com'' \<and>
   host (block (Run (imap_server []) [InRule (rule_without ''Password'')] init_world))
     = ''imap.example.org'' \<and>
   username (block init_world) = [] \<and>
   username (block (Run (imap_server []) [InRule (rule_without ''Password'')] init_world)) = ''v''"
  by (simp add: run_defs rule_without_def)

text \<open>
  C5, amended: for a rule whose first offending field (in the order Host, Username,
  Password, Mailbox) is \<open>k\<close>, the reported error names \<open>k\<close>, no connection is
  opened, and the client handle, the deferred closes, the watchers and the output are
  untouched. The credentials are assigned field by field: host and username, where they
  are parsed before \<open>k\<close>, hold the rule's values, and the fields that come after \<open>k\<close>
  are as they were.
\<close>

theorem invalid_rule_outcome:
  assumes "first_invalid r = Some k"
  shows "k \<in> set required_fields \<and> \<not> is_string (r k) \<and>
         errors (rule_branch srv r w) = errors w @ [ValidationError k] \<and>
         conns (rule_branch srv r w) = conns w \<and>
         client (block (rule_branch srv r w)) = client (block w) \<and>
         deferred (rule_branch srv r w) = deferred w \<and>
         watchers (rule_branch srv r w) = watchers w \<and>
         out (rule_branch srv r w) = out w \<and>
         status (rule_branch srv r w) = status w \<and>
         (k \<noteq> ''Host'' \<longrightarrow> host (block (rule_branch srv r w)) = string_of (r ''Host'')) \<and>
         (k = ''Password'' \<or> k = ''Mailbox'' \<longrightarrow>
            username (block (rule_branch srv r w)) = string_of (r ''Username'')) \<and>
         (k = ''Host'' \<longrightarrow> username (block (rule_branch srv r w)) = username (block w)) \<and>
         (k = ''Host'' \<or> k = ''Username'' \<longrightarrow>
            password (block (rule_branch srv r w)) = password (block w)) \<and>
         (k \<noteq> ''Mailbox'' \<longrightarrow> mailbox (block (rule_branch srv r w)) = mailbox (block w))"
  using first_invalid_cases [OF assms]
  by (elim disjE conjE)
     (simp_all add: rule_branch_def required_fields_def parseAuthRules_Host
        parseAuthRules_Username parseAuthRules_Password parseAuthRules_Mailbox)

theorem invalid_rule_outcome_witness:
  "errors (rule_branch (imap_server []) (rule_without ''Host'') init_world)
     = [ValidationError ''Host''] \<and>
   username (block (rule_branch (imap_server []) (rule_without ''Host'') init_world)) = [] \<and>
   errors (rule_branch (imap_server []) (rule_without ''Username'') init_world)
     = [ValidationError ''Username''] \<and>
   host (block (rule_branch (imap_server []) (rule_without ''Username'') init_world))
     = ''imap.example.org'' \<and>
   errors (rule_branch (imap_server []) (rule_without ''Password'') init_world)
     = [ValidationError ''Password''] \<and>
   username (block (rule_branch (imap_server []) (rule_without ''Password'') init_world)) = ''v'' \<and>
   mailbox (block (rule_branch (imap_server []) (rule_without ''Password'') init_world)) = ''INBOX'' \<and>
   errors (rule_branch (imap_server []) (rule_without ''Mailbox'') init_world)
     = [ValidationError ''Mailbox''] \<and>
   conns (rule_branch (imap_server []) (rule_without ''Mailbox'') init_world) = []"
proof -
  have h: "first_invalid (rule_without ''Host'') = Some ''Host''"
    by (simp add: first_invalid_def required_fields_def is_string_def rule_without_def mk_rule_def)
  have u: "first_invalid (rule_without ''Username'') = Some ''Username''"
    by (simp add: first_invalid_def required_fields_def is_string_def rule_without_def mk_rule_def)
  have p: "first_invalid (rule_without ''Password'') = Some ''Password''"
    by (simp add: first_invalid_def required_fields_def is_string_def rule_without_def mk_rule_def)
  have m: "first_invalid (rule_without ''Mailbox'') = Some ''Mailbox''"
    by (simp add: first_invalid_def required_fields_def is_string_def rule_without_def mk_rule_def)
  show ?thesis
    using invalid_rule_outcome [OF h, of "imap_server []" init_world]
      invalid_rule_outcome [OF u, of "imap_server []" init_world]
      invalid_rule_outcome [OF p, of "imap_server []" init_world]
      invalid_rule_outcome [OF m, of "imap_server []" init_world]
    by (simp add: init_world_def NewFromEmail_def string_of_def rule_without_def mk_rule_def)
qed

subsection \<open>Opening sessions from the control loop\<close>

lemma newIMAPClient_succeeds:
  assumes "snd (fst (newIMAPClient srv h u p m cs)) = None"
  shows "newIMAPClient srv h u p m cs = ((Some (length cs), None), cs @ [Selected])"
  using assms by (simp add: newIMAPClient_def Let_def split: if_splits)

lemma rule_branch_open:
  assumes "valid_rule r" and "open_succeeds srv r w"
  shows "conns (rule_branch srv r w) = conns w @ [Selected] \<and>
         client (block (rule_branch srv r w)) = Some (length (conns w)) \<and>
         deferred (rule_branch srv r w) = length (conns w) # deferred w \<and>
         status (rule_branch srv r w) = status w"
proof -
  define e where "e = fst (parseAuthRules r (block w))"
  have p: "parseAuthRules r (block w) = (e, None)"
    using assms(1) by (simp add: e_def parseAuthRules_valid)
  have n: "newIMAPClient srv (host e) (username e) (password e) (mailbox e) (conns w)
             = ((Some (length (conns w)), None), conns w @ [Selected])"
    using assms(2) by (simp add: open_succeeds_def e_def [symmetric] newIMAPClient_succeeds)
  obtain ferr evs reps where f: "fetchUnread srv (length (conns w)) = (ferr, evs, reps)"
    by (cases "fetchUnread srv (length (conns w))")
  show ?thesis
    by (cases ferr) (simp_all add: rule_branch_def p n f)
qed

lemma length_run_deferred: "length (run_deferred ds cs) = length cs"
  unfolding run_deferred_def by (induction ds arbitrary: cs) (simp_all add: Close_def)

lemma run_deferred_keeps_closed:
  "c < length cs \<Longrightarrow> cs ! c = Closed \<Longrightarrow> run_deferred ds cs ! c = Closed"
proof (induction ds arbitrary: cs)
  case Nil
  then show ?case by (simp add: run_deferred_def)
next
  case (Cons d ds)
  have "run_deferred (d # ds) cs = run_deferred ds (Close d cs)"
    by (simp add: run_deferred_def)
  moreover have "c < length (Close d cs)" and "Close d cs ! c = Closed"
    using Cons.prems by (cases "d = c"; simp add: Close_def)+
  ultimately show ?case using Cons.IH [of "Close d cs"] by simp
qed

lemma open_sessions_append: "open_sessions (cs @ [Selected, Selected]) = open_sessions cs + 2"
  by (simp add: open_sessions_def)

text \<open>
  C2, as stated, fails: after two valid rules whose opens succeed, two sessions are
  open at once.
\<close>

theorem second_rule_leaves_first_session_open:
  "\<not> open_sessions (conns (Run (imap_server [])
        [InRule (mk_rule ''imap.example.com'' ''u'' ''p'' ''INBOX''),
         InRule (mk_rule ''imap.example.org'' ''v'' ''q'' ''INBOX'')] init_world)) \<le> 1"
  by (simp add: run_defs fetch_defs srv_defs open_sessions_def)

text \<open>
  C2, amended: for two valid rules applied in sequence, each of whose opens succeeds,
  processing the second does not close the session of the first. After the second open both
  sessions are open and the block's client is the second. Both are closed when the
  control loop returns on the shutdown signal.
\<close>

theorem sessions_accumulate_until_quit:
  assumes "valid_rule r1" and "valid_rule r2" and "status w = Running"
      and "open_succeeds srv r1 w" and "open_succeeds srv r2 (rule_branch srv r1 w)"
  shows "conns (Run srv [InRule r1, InRule r2] w) = conns w @ [Selected, Selected] \<and>
         open_sessions (conns (Run srv [InRule r1, InRule r2] w)) = open_sessions (conns w) + 2 \<and>
         client (block (Run srv [InRule r1, InRule r2] w)) = Some (Suc (length (conns w))) \<and>
         status (Run srv [InRule r1, InRule r2, Quit] w) = Returned \<and>
         conns (Run srv [InRule r1, InRule r2, Quit] w) ! length (conns w) = Closed \<and>
         conns (Run srv [InRule r1, InRule r2, Quit] w) ! Suc (length (conns w)) = Closed"
proof -
  define w1 where "w1 = rule_branch srv r1 w"
  define w2 where "w2 = rule_branch srv r2 w1"
  define n where "n = length (conns w)"
  have s1: "conns w1 = conns w @ [Selected]" "deferred w1 = n # deferred w" "status w1 = Running"
    using rule_branch_open [OF assms(1,4)] assms(3) by (simp_all add: w1_def n_def)
  have s2: "conns w2 = conns w @ [Selected, Selected]" "client (block w2) = Some (Suc n)"
    "deferred w2 = Suc n # n # deferred w" "status w2 = Running"
    using rule_branch_open [of r2 srv w1] assms(2,5) s1 by (simp_all add: w1_def w2_def n_def)
  have r2: "Run srv [InRule r1, InRule r2] w = w2"
    using assms(3) s1 by (simp add: w1_def w2_def)
  have r3: "Run srv [InRule r1, InRule r2, Quit] w = quit_branch w2"
    using assms(3) s1 s2 by (simp add: w1_def [symmetric] w2_def [symmetric])
  define cs where "cs = Close n (Close (Suc n) (Close (Suc n) (conns w2)))"
  have q: "conns (quit_branch w2) = run_deferred (deferred w) cs"
          "status (quit_branch w2) = Returned"
    using s2 by (simp_all add: quit_branch_def run_deferred_def cs_def)
  have l: "length cs = Suc (Suc n)" by (simp add: cs_def Close_def s2 n_def)
  have c0: "cs ! n = Closed" by (simp add: cs_def Close_def s2 n_def)
  have c1: "cs ! Suc n = Closed" by (simp add: cs_def Close_def s2 n_def)
  have "run_deferred (deferred w) cs ! n = Closed"
    using run_deferred_keeps_closed [of n cs] l c0 by simp
  moreover have "run_deferred (deferred w) cs ! Suc n = Closed"
    using run_deferred_keeps_closed [of "Suc n" cs] l c1 by simp
  ultimately show ?thesis
    using r2 r3 s2 q by (simp add: open_sessions_append n_def)
qed

theorem sessions_accumulate_until_quit_witness:
  "\<not> dial_ok one_host_server ''imap.example.org'' \<and>
   conns (Run one_host_server
        [InRule (mk_rule ''imap.example.com'' ''u'' ''p'' ''INBOX''),
         InRule (mk_rule ''imap.example.com'' ''v'' ''q'' ''INBOX'')] init_world)
     = [Selected, Selected] \<and>
   conns (Run one_host_server
        [InRule (mk_rule ''imap.example.com'' ''u'' ''p'' ''INBOX''),
         InRule (mk_rule ''imap.example.com'' ''v'' ''q'' ''INBOX''), Quit] init_world)
     = [Closed, Closed]"
proof -
  let ?r1 = "mk_rule ''imap.example.com'' ''u'' ''p'' ''INBOX''"
  let ?r2 = "mk_rule ''imap.example.com'' ''v'' ''q'' ''INBOX''"
  have v1: "valid_rule ?r1"
    by (simp add: valid_rule_def required_fields_def is_string_def mk_rule_def)
  have v2: "valid_rule ?r2"
    by (simp add: valid_rule_def required_fields_def is_string_def mk_rule_def)
  have s: "status init_world = Running" by (simp add: init_world_def)
  have o1: "open_succeeds one_host_server ?r1 init_world"
    by (simp add: open_succeeds_def run_defs one_host_server_def imap_server_def)
  have o2: "open_succeeds one_host_server ?r2 (rule_branch one_host_server ?r1 init_world)"
    by (simp add: open_succeeds_def run_defs fetch_defs one_host_server_def imap_server_def)
  show ?thesis
    using sessions_accumulate_until_quit [OF v1 v2 s o1 o2]
    by (simp add: run_defs fetch_defs one_host_server_def imap_server_def)
qed

lemma newIMAPClient_failed:
  assumes "newIMAPClient srv h u p m cs = ((c, Some err), cs')"
  shows "open_sessions cs' = open_sessions cs"
  using assms
  by (auto simp: newIMAPClient_def open_sessions_def Let_def split: if_splits)

lemma rule_branch_failed_open:
  assumes "parseAuthRules r (block w) = (e, None)"
      and "newIMAPClient srv (host e) (username e) (password e) (mailbox e) (conns w)
             = ((c, Some err), cs')"
  shows "rule_branch srv r w = w\<lparr>block := e\<lparr>client := c\<rparr>, conns := cs', errors := errors w @ [err]\<rparr>"
  using assms by (cases c) (simp_all add: rule_branch_def)

text \<open>
  C6, as stated, fails: when the login is rejected, \<open>newIMAPClient\<close> returns the error
  together with the handle of the dialled connection, the connection stays open, and the
  control loop stores the handle as the block's client.
\<close>

theorem failed_open_counterexample:
  "newIMAPClient rejecting_login ''imap.example.com'' ''u'' ''p'' ''INBOX'' []
     = ((Some 0, Some (IMAPError ''login'')), [Connected]) \<and>
   client (block (Run rejecting_login
      [InRule (mk_rule ''imap.example.com'' ''u'' ''p'' ''INBOX'')] init_world)) = Some 0 \<and>
   conns (Run rejecting_login
      [InRule (mk_rule ''imap.example.com'' ''u'' ''p'' ''INBOX'')] init_world) = [Connected]"
  by (simp add: run_defs rejecting_login_def imap_server_def)

text \<open>
  C6, amended: a failed dial returns the error and the nil handle and opens nothing. A
  failed login or a failed select returns the error together with the handle of the
  dialled connection, which stays open but is not a selected session. After a rule that
  parses, the control loop stores whatever handle a failed open returned as the block's
  client, reports the error, and neither fetches, nor defers a close, nor starts a watcher.
\<close>

theorem failed_open_outcome:
  "(\<not> dial_ok srv h \<longrightarrow>
      newIMAPClient srv h u p m cs = ((None, Some (IMAPError ''dial'')), cs)) \<and>
   (dial_ok srv h \<and> \<not> login_ok srv h u p \<longrightarrow>
      newIMAPClient srv h u p m cs
        = ((Some (length cs), Some (IMAPError ''login'')), cs @ [Connected])) \<and>
   (dial_ok srv h \<and> login_ok srv h u p \<and> \<not> select_ok srv h m \<longrightarrow>
      newIMAPClient srv h u p m cs
        = ((Some (length cs), Some (IMAPError ''select'')), cs @ [Authenticated])) \<and>
   (parseAuthRules r (block w) = (e, None) \<and>
    newIMAPClient srv (host e) (username e) (password e) (mailbox e) (conns w)
      = ((c, Some err), cs') \<longrightarrow>
      client (block (rule_branch srv r w)) = c \<and>
      conns (rule_branch srv r w) = cs' \<and>
      open_sessions cs' = open_sessions (conns w) \<and>
      errors (rule_branch srv r w) = errors w @ [err] \<and>
      out (rule_branch srv r w) = out w \<and>
      deferred (rule_branch srv r w) = deferred w \<and>
      watchers (rule_branch srv r w) = watchers w \<and>
      status (rule_branch srv r w) = status w)"
proof (intro conjI impI)
  assume a: "parseAuthRules r (block w) = (e, None) \<and>
    newIMAPClient srv (host e) (username e) (password e) (mailbox e) (conns w)
      = ((c, Some err), cs')"
  then have f: "rule_branch srv r w
      = w\<lparr>block := e\<lparr>client := c\<rparr>, conns := cs', errors := errors w @ [err]\<rparr>"
    by (simp add: rule_branch_failed_open)
  show "open_sessions cs' = open_sessions (conns w)"
    using a newIMAPClient_failed by blast
  show "client (block (rule_branch srv r w)) = c" by (simp add: f)
  show "conns (rule_branch srv r w) = cs'" by (simp add: f)
  show "errors (rule_branch srv r w) = errors w @ [err]" by (simp add: f)
  show "out (rule_branch srv r w) = out w" by (simp add: f)
  show "deferred (rule_branch srv r w) = deferred w" by (simp add: f)
  show "watchers (rule_branch srv r w) = watchers w" by (simp add: f)
  show "status (rule_branch srv r w) = status w" by (simp add: f)
qed (simp_all add: newIMAPClient_def)

theorem failed_open_outcome_witness:
  "newIMAPClient refusing_dial ''h'' ''u'' ''p'' ''INBOX'' [] = ((None, Some (IMAPError ''dial'')), []) \<and>
   newIMAPClient rejecting_login ''h'' ''u'' ''p'' ''INBOX'' []
     = ((Some 0, Some (IMAPError ''login'')), [Connected]) \<and>
   newIMAPClient refusing_select ''h'' ''u'' ''p'' ''INBOX'' []
     = ((Some 0, Some (IMAPError ''select'')), [Authenticated]) \<and>
   client (block (rule_branch rejecting_login (mk_rule ''h'' ''u'' ''p'' ''INBOX'') init_world)) = Some 0 \<and>
   watchers (rule_branch rejecting_login (mk_rule ''h'' ''u'' ''p'' ''INBOX'') init_world) = [] \<and>
   errors (rule_branch rejecting_login (mk_rule ''h'' ''u'' ''p'' ''INBOX'') init_world)
     = [IMAPError ''login'']"
proof -
  have d: "\<not> dial_ok refusing_dial ''h''"
    by (simp add: refusing_dial_def)
  have l: "dial_ok rejecting_login ''h'' \<and> \<not> login_ok rejecting_login ''h'' ''u'' ''p''"
    by (simp add: rejecting_login_def imap_server_def)
  have s: "dial_ok refusing_select ''h'' \<and> login_ok refusing_select ''h'' ''u'' ''p'' \<and>
           \<not> select_ok refusing_select ''h'' ''INBOX''"
    by (simp add: refusing_select_def imap_server_def)
  have p: "parseAuthRules (mk_rule ''h'' ''u'' ''p'' ''INBOX'') (block init_world)
             = (\<lparr>host = ''h'', username = ''u'', password = ''INBOX'', mailbox = ''INBOX'',
                 client = None\<rparr>, None)"
    by (simp add: run_defs)
  have n: "newIMAPClient rejecting_login ''h'' ''u'' ''INBOX'' ''INBOX'' (conns init_world)
             = ((Some 0, Some (IMAPError ''login'')), [Connected])"
    by (simp add: run_defs rejecting_login_def imap_server_def)
  show ?thesis
    using d l s p n
      failed_open_outcome [of refusing_dial "''h''" "''u''" "''p''" "''INBOX''" "[]"]
      failed_open_outcome [of rejecting_login "''h''" "''u''" "''p''" "''INBOX''" "[]"]
      failed_open_outcome [of refusing_select "''h''" "''u''" "''p''" "''INBOX''" "[]"]
      failed_open_outcome [of rejecting_login "''h''" "''u''" "''p''" "''INBOX''" "[]"
        "mk_rule ''h'' ''u'' ''p'' ''INBOX''" init_world
        "\<lparr>host = ''h'', username = ''u'', password = ''INBOX'', mailbox = ''INBOX'', client = None\<rparr>"
        "Some 0" "IMAPError ''login''" "[Connected]"]
    by (simp add: init_world_def)
qed

lemma quit_with_client_returns:
  assumes "client (block w) = Some c" and "c < length (conns w)"
  shows "status (quit_branch w) = Returned \<and> conns (quit_branch w) ! c = Closed"
proof -
  have "Close c (conns w) ! c = Closed" and "c < length (Close c (conns w))"
    using assms(2) by (simp_all add: Close_def)
  then have "run_deferred (deferred w) (Close c (conns w)) ! c = Closed"
    using run_deferred_keeps_closed by blast
  then show ?thesis using assms(1) by (simp add: quit_branch_def)
qed

text \<open>
  C10: a shutdown signal should end the control loop without a crash in every state,
  also when no rule was ever applied. The factory leaves the client nil and the
  \<^verbatim>\<open>quit\<close> case calls \<^verbatim>\<open>Close\<close> on it without a check: on a fresh block the
  shutdown signal panics, whatever the server.
\<close>

theorem quit_before_any_rule_panics:
  "client (block init_world) = None \<and> status (Run srv [Quit] init_world) = Panicked"
  by (simp add: run_defs)

subsection \<open>The idle watcher\<close>

lemma idle_step_stuck: "pc w \<noteq> Selecting \<Longrightarrow> idle_step srv conn ev w = w"
  by (cases "pc w") (simp_all add: idle_step_def poll_receiver_ready_def)

lemma idle_run_stuck: "pc w \<noteq> Selecting \<Longrightarrow> idle_run srv conn evs w = w"
  unfolding idle_run_def by (induction evs) (simp_all add: idle_step_stuck)

lemma idle_start_pc:
  "pc (idle_start srv) = (if reply srv [] OpIdle = None then Blocked_on_send else Exited)"
  by (cases "reply srv [] OpIdle") (simp_all add: idle_start_def)

text \<open>
  C9: once the push-wait is armed the watcher should reach its waiting loop and handle a
  poll tick every ten seconds. The send \<^verbatim>\<open>poll <- 0\<close> on the unbuffered channel comes
  before the loop, and the only receive on that channel is the loop's \<^verbatim>\<open>select\<close>:
  for every server and every sequence of ticks the watcher stays where \<open>idle_start\<close>
  left it, blocked on the send if \<^verbatim>\<open>Idle\<close> succeeded, having issued that one call and
  emitted nothing.
\<close>

theorem idle_never_reaches_its_loop:
  "idle_run srv conn evs (idle_start srv) = idle_start srv \<and>
   pc (idle_start srv) = (if reply srv [] OpIdle = None then Blocked_on_send else Exited) \<and>
   oplog (idle_start srv) = [OpIdle] \<and>
   emitted (idle_start srv) = []"
proof -
  have "pc (idle_start srv) \<noteq> Selecting" by (simp add: idle_start_pc)
  then have "idle_run srv conn evs (idle_start srv) = idle_start srv"
    by (rule idle_run_stuck)
  moreover have "oplog (idle_start srv) = [OpIdle] \<and> emitted (idle_start srv) = []"
    by (cases "reply srv [] OpIdle") (simp_all add: idle_start_def)
  ultimately show ?thesis by (simp add: idle_start_pc)
qed

lemma idle_blocked_on_concrete_run:
  "idle_run (imap_server []) 0 [PollTick, ResetTick, PollTick, PollTick] (idle_start (imap_server []))
     = \<lparr>pc = Blocked_on_send, oplog = [OpIdle], emitted = [], reported = [], sleepers = 0\<rparr>"
  by (simp add: idle_run_def idle_step_def poll_receiver_ready_def idle_start_def
        imap_server_def)







end
